theory Spec2Isabelle
  imports Main
begin

section \<open>Go strings\<close>

text \<open>
  A Go string holding valid UTF-8 is identified with its sequence of Unicode code points, so
  that the conversions \<^verbatim>\<open>[]rune(s)\<close> and \<^verbatim>\<open>string(runes)\<close> are the identity.
  \<open>go_len\<close> is what Go's \<^verbatim>\<open>len(s)\<close> counts: the bytes of the UTF-8 encoding.
\<close>

type_synonym rune = nat
type_synonym gostring = "rune list"

definition S :: "string \<Rightarrow> gostring" where
  "S cs = map (\<lambda>c. of_char c) cs"

definition utf8_len :: "rune \<Rightarrow> nat" where
  "utf8_len r = (if r < 0x80 then 1 else if r < 0x800 then 2 else if r < 0x10000 then 3 else 4)"

definition go_len :: "gostring \<Rightarrow> nat" where
  "go_len s = sum_list (map utf8_len s)"

text \<open>\<^verbatim>\<open>unicode.IsSpace\<close>: the code points with the White_Space property.\<close>

definition isSpace :: "rune \<Rightarrow> bool" where
  "isSpace r \<longleftrightarrow>
     (9 \<le> r \<and> r \<le> 13) \<or> r = 0x20 \<or> r = 0x85 \<or> r = 0xA0 \<or> r = 0x1680 \<or>
     (0x2000 \<le> r \<and> r \<le> 0x200A) \<or> r = 0x2028 \<or> r = 0x2029 \<or> r = 0x202F \<or>
     r = 0x205F \<or> r = 0x3000"

text \<open>\<^verbatim>\<open>strings.TrimSpace\<close>: leading and trailing white space removed.\<close>

definition TrimSpace :: "gostring \<Rightarrow> gostring" where
  "TrimSpace s = rev (dropWhile isSpace (rev (dropWhile isSpace s)))"

section \<open>UTF-16 offset resolver (internal/classifier/utf16slice.go)\<close>

text \<open>
  \<^verbatim>\<open>len(utf16.Encode([]rune{r}))\<close>: two code units for a code point of a supplementary
  plane, one for every other rune (an invalid one is encoded as U+FFFD).
\<close>

definition utf16_len :: "rune \<Rightarrow> int" where
  "utf16_len r = (if 0x10000 \<le> r \<and> r \<le> 0x10FFFF then 2 else 1)"

text \<open>
  Go's \<^verbatim>\<open>int\<close> is 64 bits wide on the supported platforms and its addition wraps around.
  The wrap-around is written out where the operands come from outside (an entity's offset and
  length); the counter \<open>curCU\<close> is bounded by twice the number of runes and cannot overflow.
\<close>

definition wrap64 :: "int \<Rightarrow> int" where
  "wrap64 i = (i + 9223372036854775808) mod 18446744073709551616 - 9223372036854775808"

text \<open>
  The loop of \<open>SliceByUTF16\<close> over \<^verbatim>\<open>range runes\<close>. The arguments are the number of runes,
  \<open>startCU\<close>, \<open>endCU\<close>, the index \<open>ri\<close> of the next rune, the runes not yet visited, and the
  variables \<open>curCU\<close>, \<open>startRI\<close>, \<open>endRI\<close>; the result is the value of these three variables
  when the loop is left, by \<^verbatim>\<open>break\<close> or at the end of the runes.
\<close>

fun slice_loop :: "nat \<Rightarrow> int \<Rightarrow> int \<Rightarrow> nat \<Rightarrow> rune list \<Rightarrow> int \<Rightarrow> nat \<Rightarrow> nat \<Rightarrow> int \<times> nat \<times> nat" where
  "slice_loop n startCU endCU ri [] curCU startRI endRI = (curCU, startRI, endRI)"
| "slice_loop n startCU endCU ri (r # rs) curCU startRI endRI =
     (let startRI' = (if curCU \<ge> startCU \<and> startRI = n then ri else startRI) in
      if curCU \<ge> endCU then (curCU, startRI', ri)
      else slice_loop n startCU endCU (Suc ri) rs (curCU + utf16_len r) startRI' endRI)"

definition SliceByUTF16 :: "gostring \<Rightarrow> int \<Rightarrow> int \<Rightarrow> gostring" where
  "SliceByUTF16 s off0 length0 =
     (let off = (if off0 < 0 then 0 else off0);
          len = (if length0 < 0 then 0 else length0);
          runes = s;
          n = length runes;
          startCU = off;
          endCU = wrap64 (off + len);
          (curCU, startRI1, endRI1) = slice_loop n startCU endCU 0 runes 0 n n;
          startRI2 = (if startCU \<ge> curCU then n else startRI1);
          endRI = (if endCU \<ge> curCU then n else endRI1);
          startRI = (if startRI2 > endRI then endRI else startRI2)
      in take (endRI - startRI) (drop startRI runes))"

section \<open>URL extractor (internal/classifier/extract_urls.go)\<close>

record MessageEntity =
  Type :: gostring
  Offset :: int
  Length :: int
  ent_URL :: gostring

text \<open>The character class of \<^verbatim>\<open>trailingPunctRE = [)\\].,!?:;]+$\<close>.\<close>

definition trailingPunct :: "rune \<Rightarrow> bool" where
  "trailingPunct r \<longleftrightarrow> r \<in> set (S '')].,!?:;'')"

text \<open>
  \<^verbatim>\<open>trailingPunctRE.ReplaceAllString(u, "")\<close>: the only match of the anchored pattern is the
  longest run of class characters at the end of the string, which is deleted.
\<close>

definition stripTrailingPunct :: "gostring \<Rightarrow> gostring" where
  "stripTrailingPunct u = rev (dropWhile trailingPunct (rev u))"

text \<open>
  The closure \<^verbatim>\<open>add\<close> of \<open>ExtractURLs\<close>; the variables \<open>out\<close> and \<open>seen\<close> it
  captures are passed in and returned.
\<close>

definition add_url :: "gostring list \<times> gostring set \<Rightarrow> gostring \<Rightarrow> gostring list \<times> gostring set" where
  "add_url st u0 =
     (let (out, seen) = st;
          u1 = TrimSpace u0;
          u2 = stripTrailingPunct u1;
          u = TrimSpace u2
      in if u = [] then st
         else if u \<in> seen then st
         else (out @ [u], insert u seen))"

fun extract_loop :: "gostring \<Rightarrow> MessageEntity list \<Rightarrow> gostring list \<times> gostring set \<Rightarrow> gostring list \<times> gostring set" where
  "extract_loop text [] st = st"
| "extract_loop text (e # es) st =
     (if Type e = S ''text_link'' then extract_loop text es (add_url st (ent_URL e))
      else if Type e = S ''url'' then
        extract_loop text es (add_url st (SliceByUTF16 text (Offset e) (Length e)))
      else extract_loop text es st)"

definition ExtractURLs :: "gostring \<Rightarrow> MessageEntity list \<Rightarrow> gostring list" where
  "ExtractURLs text entities = fst (extract_loop text entities ([], {}))"

section \<open>Messages\<close>

text \<open>
  The fields of \<^verbatim>\<open>tgbotapi.Message\<close> that the pipeline reads. A pointer field that may be
  \<^verbatim>\<open>nil\<close> is an \<open>option\<close>.
\<close>

record PhotoSize =
  photo_FileID :: gostring
  photo_FileSize :: int

record Document =
  doc_FileID :: gostring
  doc_FileName :: gostring
  doc_MimeType :: gostring
  doc_FileSize :: int

record Video =
  video_FileID :: gostring
  video_MimeType :: gostring
  video_FileSize :: int

record Audio =
  audio_FileID :: gostring
  audio_FileName :: gostring
  audio_MimeType :: gostring
  audio_FileSize :: int

record Voice =
  voice_FileID :: gostring
  voice_MimeType :: gostring
  voice_FileSize :: int

record Animation =
  anim_FileID :: gostring
  anim_FileName :: gostring
  anim_MimeType :: gostring
  anim_FileSize :: int

record VideoNote =
  vnote_FileID :: gostring
  vnote_FileSize :: int

record Sticker =
  sticker_FileID :: gostring
  sticker_IsAnimated :: bool
  sticker_FileSize :: int

record Message =
  Text :: gostring
  Caption :: gostring
  Entities :: "MessageEntity list"
  CaptionEntities :: "MessageEntity list"
  Photo :: "PhotoSize list"
  Document :: "Document option"
  Video :: "Video option"
  Audio :: "Audio option"
  Voice :: "Voice option"
  Animation :: "Animation option"
  VideoNote :: "VideoNote option"
  Sticker :: "Sticker option"
  MediaGroupID :: gostring
  Date :: int

definition ExtractURLsFromMessage :: "Message option \<Rightarrow> gostring list" where
  "ExtractURLsFromMessage msg =
     (case msg of
        None \<Rightarrow> []
      | Some m \<Rightarrow>
          if Text m \<noteq> [] then ExtractURLs (Text m) (Entities m)
          else if Caption m \<noteq> [] then ExtractURLs (Caption m) (CaptionEntities m)
          else [])"

section \<open>Message classifier (internal/classifier/classify.go)\<close>

text \<open>\<^verbatim>\<open>type Kind string\<close> and its three constants.\<close>

type_synonym Kind = gostring

definition KindBookmark :: Kind where "KindBookmark = S ''bookmark''"
definition KindNote :: Kind where "KindNote = S ''note''"
definition KindFile :: Kind where "KindFile = S ''file''"

record Result =
  Kind :: Kind
  URL :: gostring
  Notes :: gostring
  res_Text :: gostring
  URLs :: "gostring list"
  HasMedia :: bool

text \<open>The zero value of \<open>Result\<close>; a composite literal sets the fields it names.\<close>

definition Result0 :: Result where
  "Result0 = \<lparr>Kind = [], URL = [], Notes = [], res_Text = [], URLs = [], HasMedia = False\<rparr>"

definition firstNonEmpty :: "gostring \<Rightarrow> gostring \<Rightarrow> gostring" where
  "firstNonEmpty a b = (if TrimSpace a \<noteq> [] then a else b)"

definition messageHasMedia :: "Message option \<Rightarrow> bool" where
  "messageHasMedia msg =
     (case msg of
        None \<Rightarrow> False
      | Some m \<Rightarrow>
          if length (Photo m) > 0 then True
          else if Document m \<noteq> None \<or> Video m \<noteq> None \<or> Animation m \<noteq> None \<or>
                  Audio m \<noteq> None \<or> Voice m \<noteq> None \<or> VideoNote m \<noteq> None then True
          else if Sticker m \<noteq> None then True
          else False)"

definition ClassifyMessage :: "Message option \<Rightarrow> Result" where
  "ClassifyMessage msg =
     (case msg of
        None \<Rightarrow> Result0\<lparr>Kind := KindNote\<rparr>
      | Some m \<Rightarrow>
          let text = TrimSpace (firstNonEmpty (Text m) (Caption m));
              urls = ExtractURLsFromMessage msg;
              hasMedia = messageHasMedia msg
          in if hasMedia \<and> text = [] \<and> length urls = 0 then
               Result0\<lparr>Kind := KindFile, URLs := [], HasMedia := True\<rparr>
             else if hasMedia then
               Result0\<lparr>Kind := KindNote, res_Text := text, URLs := urls, HasMedia := True\<rparr>
             else (case urls of
                 [] \<Rightarrow> Result0\<lparr>Kind := KindNote, res_Text := text, URLs := urls\<rparr>
               | [u0] \<Rightarrow>
                   let onlyURL = TrimSpace u0
                   in if text = onlyURL then Result0\<lparr>Kind := KindBookmark, URL := onlyURL\<rparr>
                      else Result0\<lparr>Kind := KindBookmark, URL := onlyURL, Notes := text, URLs := urls\<rparr>
               | _ \<Rightarrow> Result0\<lparr>Kind := KindNote, res_Text := text, URLs := urls\<rparr>))"


section \<open>Reference functions for the extractor and the classifier\<close>

text \<open>
  Deduplication that keeps, for every key, the first element that carries it, at its place.
\<close>

fun keep_first_by :: "('a \<Rightarrow> 'k) \<Rightarrow> 'a list \<Rightarrow> 'a list" where
  "keep_first_by key [] = []"
| "keep_first_by key (x # xs) = x # keep_first_by key (filter (\<lambda>y. key y \<noteq> key x) xs)"



section \<open>Example messages\<close>

definition msg0 :: Message where
  "msg0 = \<lparr>Text = [], Caption = [], Entities = [], CaptionEntities = [], Photo = [],
     Document = None, Video = None, Audio = None, Voice = None, Animation = None,
     VideoNote = None, Sticker = None, MediaGroupID = [], Date = 0\<rparr>"










text \<open>The text of the repository's test of the resolver: a, U+1F60A (two code units), b.\<close>

definition test_text :: gostring where
  "test_text = [0x61, 0x1F60A, 0x62]"

section \<open>Attachment extractor (internal/app/app.go)\<close>

record Attachment =
  FileID :: gostring
  Filename :: gostring
  Mime :: gostring
  SizeBytes :: int

text \<open>
  \<^verbatim>\<open>filepath.Base\<close> with the separator \<open>/\<close>: the last element of the path, after the
  trailing separators are removed; \<open>.\<close> for the empty path and \<open>/\<close> for a path of
  separators only.
\<close>

definition filepath_Base :: "gostring \<Rightarrow> gostring" where
  "filepath_Base path =
     (if path = [] then S ''.''
      else let p1 = rev (dropWhile (\<lambda>r. r = 0x2F) (rev path));
               p2 = rev (takeWhile (\<lambda>r. r \<noteq> 0x2F) (rev p1))
           in if p2 = [] then S ''/'' else p2)"

definition safeFilename :: "gostring \<Rightarrow> gostring" where
  "safeFilename name0 =
     (let name = TrimSpace name0
      in if name = [] then S ''upload.bin'' else filepath_Base name)"

text \<open>
  The closure \<^verbatim>\<open>add\<close> of \<open>ExtractAttachments\<close>, with the captured variables \<open>out\<close> and
  \<open>seen\<close> passed in and returned.
\<close>

definition add_attachment ::
  "Attachment list \<times> gostring set \<Rightarrow> Attachment \<Rightarrow> Attachment list \<times> gostring set" where
  "add_attachment st a =
     (let (out, seen) = st
      in if TrimSpace (FileID a) = [] then st
         else if FileID a \<in> seen then st
         else (out @ [if TrimSpace (Filename a) = [] then a\<lparr>Filename := S ''upload.bin''\<rparr> else a],
               insert (FileID a) seen))"

text \<open>The body of the loop over the batch, for a message that is not \<^verbatim>\<open>nil\<close>.\<close>

definition extract_from_message ::
  "Attachment list \<times> gostring set \<Rightarrow> Message \<Rightarrow> Attachment list \<times> gostring set" where
  "extract_from_message st0 msg =
     (let st1 = (if length (Photo msg) > 0 then
                   let p = Photo msg ! (length (Photo msg) - 1)
                   in add_attachment st0 \<lparr>FileID = photo_FileID p, Filename = S ''photo.jpg'',
                        Mime = S ''image/jpeg'', SizeBytes = photo_FileSize p\<rparr>
                 else st0);
          st2 = (case Document msg of
                   None \<Rightarrow> st1
                 | Some d \<Rightarrow>
                     let fn = (if TrimSpace (doc_FileName d) = [] then S ''document'' else doc_FileName d)
                     in add_attachment st1 \<lparr>FileID = doc_FileID d, Filename = safeFilename fn,
                          Mime = doc_MimeType d, SizeBytes = doc_FileSize d\<rparr>);
          st3 = (case Video msg of
                   None \<Rightarrow> st2
                 | Some v \<Rightarrow>
                     add_attachment st2 \<lparr>FileID = video_FileID v, Filename = S ''video.mp4'',
                       Mime = video_MimeType v, SizeBytes = video_FileSize v\<rparr>);
          st4 = (case Audio msg of
                   None \<Rightarrow> st3
                 | Some a \<Rightarrow>
                     let fn = (if TrimSpace (audio_FileName a) = [] then S ''audio.mp3'' else audio_FileName a)
                     in add_attachment st3 \<lparr>FileID = audio_FileID a, Filename = safeFilename fn,
                          Mime = audio_MimeType a, SizeBytes = audio_FileSize a\<rparr>);
          st5 = (case Voice msg of
                   None \<Rightarrow> st4
                 | Some v \<Rightarrow>
                     add_attachment st4 \<lparr>FileID = voice_FileID v, Filename = S ''voice.ogg'',
                       Mime = voice_MimeType v, SizeBytes = voice_FileSize v\<rparr>);
          st6 = (case Animation msg of
                   None \<Rightarrow> st5
                 | Some a \<Rightarrow>
                     let fn = (if TrimSpace (anim_FileName a) = [] then S ''animation.mp4'' else anim_FileName a)
                     in add_attachment st5 \<lparr>FileID = anim_FileID a, Filename = safeFilename fn,
                          Mime = anim_MimeType a, SizeBytes = anim_FileSize a\<rparr>);
          st7 = (case VideoNote msg of
                   None \<Rightarrow> st6
                 | Some v \<Rightarrow>
                     add_attachment st6 \<lparr>FileID = vnote_FileID v, Filename = S ''video_note.mp4'',
                       Mime = S ''video/mp4'', SizeBytes = vnote_FileSize v\<rparr>);
          st8 = (case Sticker msg of
                   None \<Rightarrow> st7
                 | Some s \<Rightarrow>
                     let ext = (if sticker_IsAnimated s then S ''tgs'' else S ''webp'')
                     in add_attachment st7 \<lparr>FileID = sticker_FileID s, Filename = S ''sticker.'' @ ext,
                          Mime = [], SizeBytes = sticker_FileSize s\<rparr>)
      in st8)"

fun attachments_loop ::
  "Attachment list \<times> gostring set \<Rightarrow> Message option list \<Rightarrow> Attachment list \<times> gostring set" where
  "attachments_loop st [] = st"
| "attachments_loop st (None # msgs) = attachments_loop st msgs"
| "attachments_loop st (Some msg # msgs) = attachments_loop (extract_from_message st msg) msgs"

definition ExtractAttachments :: "Message option list \<Rightarrow> Attachment list" where
  "ExtractAttachments msgs = fst (attachments_loop ([], {}) msgs)"

subsection \<open>Reference functions for the attachment extractor\<close>

text \<open>
  The attachments that one message offers, in the order of the kind checks: at most one per
  kind, the last size variant for a photo.
\<close>

definition message_attachments :: "Message \<Rightarrow> Attachment list" where
  "message_attachments msg =
     (if Photo msg = [] then []
      else [\<lparr>FileID = photo_FileID (last (Photo msg)), Filename = S ''photo.jpg'',
              Mime = S ''image/jpeg'', SizeBytes = photo_FileSize (last (Photo msg))\<rparr>])
     @ (case Document msg of
          None \<Rightarrow> []
        | Some d \<Rightarrow>
            [\<lparr>FileID = doc_FileID d,
               Filename = safeFilename (if TrimSpace (doc_FileName d) = [] then S ''document''
                                        else doc_FileName d),
               Mime = doc_MimeType d, SizeBytes = doc_FileSize d\<rparr>])
     @ (case Video msg of
          None \<Rightarrow> []
        | Some v \<Rightarrow>
            [\<lparr>FileID = video_FileID v, Filename = S ''video.mp4'', Mime = video_MimeType v,
               SizeBytes = video_FileSize v\<rparr>])
     @ (case Audio msg of
          None \<Rightarrow> []
        | Some a \<Rightarrow>
            [\<lparr>FileID = audio_FileID a,
               Filename = safeFilename (if TrimSpace (audio_FileName a) = [] then S ''audio.mp3''
                                        else audio_FileName a),
               Mime = audio_MimeType a, SizeBytes = audio_FileSize a\<rparr>])
     @ (case Voice msg of
          None \<Rightarrow> []
        | Some v \<Rightarrow>
            [\<lparr>FileID = voice_FileID v, Filename = S ''voice.ogg'', Mime = voice_MimeType v,
               SizeBytes = voice_FileSize v\<rparr>])
     @ (case Animation msg of
          None \<Rightarrow> []
        | Some a \<Rightarrow>
            [\<lparr>FileID = anim_FileID a,
               Filename = safeFilename (if TrimSpace (anim_FileName a) = [] then S ''animation.mp4''
                                        else anim_FileName a),
               Mime = anim_MimeType a, SizeBytes = anim_FileSize a\<rparr>])
     @ (case VideoNote msg of
          None \<Rightarrow> []
        | Some v \<Rightarrow>
            [\<lparr>FileID = vnote_FileID v, Filename = S ''video_note.mp4'', Mime = S ''video/mp4'',
               SizeBytes = vnote_FileSize v\<rparr>])
     @ (case Sticker msg of
          None \<Rightarrow> []
        | Some s \<Rightarrow>
            [\<lparr>FileID = sticker_FileID s,
               Filename = S ''sticker.'' @ (if sticker_IsAnimated s then S ''tgs'' else S ''webp''),
               Mime = [], SizeBytes = sticker_FileSize s\<rparr>])"

definition attachment_candidates :: "Message option list \<Rightarrow> Attachment list" where
  "attachment_candidates msgs =
     concat (map (\<lambda>m. case m of None \<Rightarrow> [] | Some msg \<Rightarrow> message_attachments msg) msgs)"

definition default_filename :: "Attachment \<Rightarrow> Attachment" where
  "default_filename a = (if TrimSpace (Filename a) = [] then a\<lparr>Filename := S ''upload.bin''\<rparr> else a)"

text \<open>A batch in which the same sticker is forwarded twice.\<close>

definition sticker1 :: Sticker where
  "sticker1 = \<lparr>sticker_FileID = S ''st1'', sticker_IsAnimated = False, sticker_FileSize = 7\<rparr>"

definition ex_sticker_twice :: "Message option list" where
  "ex_sticker_twice = [Some (msg0\<lparr>Sticker := Some sticker1\<rparr>), Some (msg0\<lparr>Sticker := Some sticker1\<rparr>)]"

section \<open>Extraction readiness (internal/app/app.go)\<close>

text \<open>
  What \<^verbatim>\<open>json.Unmarshal\<close> into \<^verbatim>\<open>any\<close> produces. An object is kept as the list of its
  fields; Go ranges over a map in no fixed order. The value of a number plays no part.
\<close>

datatype json =
    JNull
  | JBool bool
  | JNumber
  | JString gostring
  | JArray "json list"
  | JObject "(gostring \<times> json) list"

text \<open>
  \<^verbatim>\<open>strings.ToLower\<close>. The upper-case ASCII letters are mapped to lower case, and so are
  the two other runes that Unicode maps into ASCII, U+0130 to \<open>i\<close> and U+212A to \<open>k\<close>.
  The results are only compared with ASCII words, so the mapping of the remaining runes
  (which stay outside ASCII) is left out.
\<close>

definition toLower_rune :: "rune \<Rightarrow> rune" where
  "toLower_rune r =
     (if 0x41 \<le> r \<and> r \<le> 0x5A then r + 32
      else if r = 0x130 then 0x69
      else if r = 0x212A then 0x6B
      else r)"

definition ToLower :: "gostring \<Rightarrow> gostring" where
  "ToLower s = map toLower_rune s"

definition excluded_key :: "gostring \<Rightarrow> bool" where
  "excluded_key kl \<longleftrightarrow> kl = S ''notes'' \<or> kl = S ''note'' \<or> kl = S ''summary''"

definition content_key :: "gostring \<Rightarrow> bool" where
  "content_key kl \<longleftrightarrow>
     kl = S ''content'' \<or> kl = S ''html'' \<or> kl = S ''text'' \<or> kl = S ''textcontent'' \<or>
     kl = S ''readablecontent'' \<or> kl = S ''excerpt'' \<or> kl = S ''description'' \<or>
     kl = S ''markdown'' \<or> kl = S ''article''"

text \<open>\<^verbatim>\<open>s, ok := vv.(string); ok && len(strings.TrimSpace(s)) >= n\<close>\<close>

fun string_at_least :: "nat \<Rightarrow> json \<Rightarrow> bool" where
  "string_at_least n (JString s) = (go_len (TrimSpace s) \<ge> n)"
| "string_at_least n _ = False"

text \<open>
  \<open>findNonTrivialContent\<close> with its two loops, over the fields of an object and over the
  items of an array. The map \<open>sig\<close> that the source fills for its log line has no
  influence on the boolean and is left out.
\<close>

function findNonTrivialContent :: "json \<Rightarrow> nat \<Rightarrow> bool"
  and scan_fields :: "(gostring \<times> json) list \<Rightarrow> nat \<Rightarrow> bool"
  and scan_items :: "json list \<Rightarrow> nat \<Rightarrow> bool" where
  "findNonTrivialContent v depth =
     (if depth > 6 \<or> v = JNull then False
      else case v of
             JObject x \<Rightarrow> scan_fields x depth
           | JArray x \<Rightarrow> scan_items x depth
           | JString x \<Rightarrow> go_len (TrimSpace x) \<ge> 400
           | _ \<Rightarrow> False)"
| "scan_fields [] depth = False"
| "scan_fields ((k, vv) # rest) depth =
     (let kl = ToLower k
      in if excluded_key kl then scan_fields rest depth
         else if content_key kl \<and> string_at_least 200 vv then True
         else if findNonTrivialContent vv (depth + 1) then True
         else scan_fields rest depth)"
| "scan_items [] depth = False"
| "scan_items (vv # rest) depth =
     (if findNonTrivialContent vv (depth + 1) then True else scan_items rest depth)"
  by pat_completeness auto
termination
  by (relation "measure (\<lambda>x. case x of
          Inl (v, d) \<Rightarrow> 2 * size v + 1
        | Inr (Inl (kvs, d)) \<Rightarrow> 2 * size_list (size_prod (\<lambda>_. 0) size) kvs
        | Inr (Inr (xs, d)) \<Rightarrow> 2 * size_list size xs)")
     auto

text \<open>\<^verbatim>\<open>strings.Contains\<close>: the second string occurs in the first as a contiguous part.\<close>

fun Contains :: "gostring \<Rightarrow> gostring \<Rightarrow> bool" where
  "Contains [] sub = (sub = [])"
| "Contains (c # cs) sub = (take (length sub) (c # cs) = sub \<or> Contains cs sub)"

definition crawl_marker :: gostring where
  \<open>crawl_marker = S ''"crawlStatus":"success"''\<close>

definition tagging_marker :: gostring where
  \<open>tagging_marker = S ''"taggingStatus":"success"''\<close>

text \<open>
  \<open>hasExtractedContent\<close>, without the log signals. The decoder \<^verbatim>\<open>json.Unmarshal(raw, &m)\<close>
  with \<^verbatim>\<open>m\<close> a \<^verbatim>\<open>map[string]any\<close> is a parameter: it yields the fields of the object that
  the raw text denotes, or nothing when the text is not a JSON object.
\<close>

definition hasExtractedContent ::
  "(gostring \<Rightarrow> (gostring \<times> json) list option) \<Rightarrow> gostring \<Rightarrow> bool" where
  "hasExtractedContent unmarshal raw =
     (if go_len raw = 0 then False
      else if Contains raw crawl_marker \<or> Contains raw tagging_marker then True
      else case unmarshal raw of
             None \<Rightarrow> False
           | Some m \<Rightarrow> findNonTrivialContent (JObject m) 0)"

subsection \<open>The readiness predicate, stated declaratively\<close>

text \<open>
  \<open>scanned v d w e\<close>: a scan that starts at the value \<open>v\<close> at depth \<open>d\<close> comes to the
  value \<open>w\<close> at depth \<open>e\<close>, going down through array items and through object fields whose
  lower-cased key is not notes, note or summary.
\<close>

inductive scanned :: "json \<Rightarrow> nat \<Rightarrow> json \<Rightarrow> nat \<Rightarrow> bool" where
  here: "scanned v d v d"
| field: "(k, vv) \<in> set kvs \<Longrightarrow> \<not> excluded_key (ToLower k) \<Longrightarrow> scanned vv (Suc d) w e \<Longrightarrow>
          scanned (JObject kvs) d w e"
| item: "vv \<in> set xs \<Longrightarrow> scanned vv (Suc d) w e \<Longrightarrow> scanned (JArray xs) d w e"

text \<open>
  An object that has a string field of trimmed length at least 200 bytes under a key that
  the predicate \<open>ck\<close> accepts; a string of trimmed length at least 400 bytes.
\<close>

definition content_hit :: "(gostring \<Rightarrow> bool) \<Rightarrow> json \<Rightarrow> bool" where
  "content_hit ck w \<longleftrightarrow>
     (\<exists>kvs k s. w = JObject kvs \<and> (k, JString s) \<in> set kvs \<and> ck (ToLower k) \<and>
        go_len (TrimSpace s) \<ge> 200)"

definition big_string :: "json \<Rightarrow> bool" where
  "big_string w \<longleftrightarrow> (\<exists>s. w = JString s \<and> go_len (TrimSpace s) \<ge> 400)"

definition scan_finds :: "(gostring \<Rightarrow> bool) \<Rightarrow> json \<Rightarrow> nat \<Rightarrow> bool" where
  "scan_finds ck v d \<longleftrightarrow> (\<exists>w e. scanned v d w e \<and> e \<le> 6 \<and> (content_hit ck w \<or> big_string w))"

definition has_marker :: "gostring \<Rightarrow> bool" where
  "has_marker raw \<longleftrightarrow> Contains raw crawl_marker \<or> Contains raw tagging_marker"

text \<open>The keys that the specification lists as suggesting page content.\<close>

definition listed_content_key :: "gostring \<Rightarrow> bool" where
  "listed_content_key kl \<longleftrightarrow>
     kl = S ''content'' \<or> kl = S ''html'' \<or> kl = S ''text'' \<or> kl = S ''excerpt'' \<or>
     kl = S ''description'' \<or> kl = S ''markdown'' \<or> kl = S ''article''"

text \<open>
  The readiness predicate as the specification words it: a success marker, or the bounded
  scan finds a long enough string under one of the listed keys or a string of 400.
\<close>

definition ready_as_specified ::
  "(gostring \<Rightarrow> (gostring \<times> json) list option) \<Rightarrow> gostring \<Rightarrow> bool" where
  "ready_as_specified unmarshal raw \<longleftrightarrow>
     has_marker raw \<or> (\<exists>m. unmarshal raw = Some m \<and> scan_finds listed_content_key (JObject m) 0)"

text \<open>
  A record whose only field is \<open>textContent\<close>, holding 200 letters, with the decoder's
  result on it.
\<close>

definition ex_raw :: gostring where
  \<open>ex_raw = S ''{"textContent":"'' @ replicate 200 0x61 @ S ''"}''\<close>

definition ex_fields :: "(gostring \<times> json) list" where
  "ex_fields = [(S ''textContent'', JString (replicate 200 0x61))]"

definition ex_unmarshal :: "gostring \<Rightarrow> (gostring \<times> json) list option" where
  "ex_unmarshal raw = (if raw = ex_raw then Some ex_fields else None)"

text \<open>
  A record whose only field is \<open>Notes\<close>, holding 400 letters, and a truncated record that
  carries the crawl marker and does not decode.
\<close>

definition ex_notes_raw :: gostring where
  \<open>ex_notes_raw = S ''{"Notes":"'' @ replicate 400 0x61 @ S ''"}''\<close>

definition ex_notes_unmarshal :: "gostring \<Rightarrow> (gostring \<times> json) list option" where
  "ex_notes_unmarshal raw =
     (if raw = ex_notes_raw then Some [(S ''Notes'', JString (replicate 400 0x61))] else None)"

definition ex_marker_raw :: gostring where
  \<open>ex_marker_raw = S ''{"crawlStatus":"success","ti''\<close>

section \<open>Submission to the remote service (internal/app/app.go, processMessageBatch)\<close>

text \<open>
  \<^verbatim>\<open>karakeep.Bookmark\<close>. The field \<open>bm_SummaryText\<close> stands for the result of the method
  \<^verbatim>\<open>SummaryText()\<close> on the record, \<open>bm_Raw\<close> for the raw response body.
\<close>

record Bookmark =
  bm_ID :: gostring
  bm_Title :: gostring
  bm_SummaryText :: gostring
  bm_Tags :: "gostring list"
  bm_Raw :: gostring

definition Bookmark0 :: Bookmark where
  "Bookmark0 = \<lparr>bm_ID = [], bm_Title = [], bm_SummaryText = [], bm_Tags = [], bm_Raw = []\<rparr>"

text \<open>
  A call of \<^verbatim>\<open>client.CreateBookmark(ctx, url, title, notes)\<close> is recorded by its three
  string arguments; it returns a bookmark, an HTTP status and an error (\<open>None\<close> for
  \<^verbatim>\<open>nil\<close>, otherwise the error's text). The remote service is a function from the calls made
  so far and the present call to the response; the log of calls is threaded through.
\<close>

type_synonym create_call = "gostring \<times> gostring \<times> gostring"
type_synonym response = "Bookmark \<times> int \<times> gostring option"
type_synonym remote = "create_call list \<Rightarrow> create_call \<Rightarrow> response"

definition CreateBookmark ::
  "remote \<Rightarrow> create_call list \<Rightarrow> gostring \<Rightarrow> gostring \<Rightarrow> gostring \<Rightarrow> response \<times> create_call list" where
  "CreateBookmark remote log url title notes =
     (remote log (url, title, notes), log @ [(url, title, notes)])"

text \<open>
  The \<^verbatim>\<open>switch res.Kind\<close> of \<open>processMessageBatch\<close>, the only place where the orchestrator
  creates a record. The variables \<open>b\<close>, \<open>status\<close> and \<open>err\<close> keep their zero values when no
  case applies. \<open>format_date\<close> is \<^verbatim>\<open>time.Unix(int64(msg.Date), 0).UTC().Format(time.RFC3339)\<close>.
\<close>

definition create_for_kind ::
  "remote \<Rightarrow> (int \<Rightarrow> gostring) \<Rightarrow> Result \<Rightarrow> Message \<Rightarrow> create_call list \<Rightarrow>
   response \<times> create_call list" where
  "create_for_kind remote format_date res msg log0 =
     (if Kind res = KindBookmark then
        CreateBookmark remote log0 (URL res) [] (Notes res)
      else if Kind res = KindNote then
        (let (r1, log1) = CreateBookmark remote log0 [] [] (res_Text res)
         in if snd (snd r1) \<noteq> None \<and> length (URLs res) > 0 then
              CreateBookmark remote log1 (URLs res ! 0) [] (res_Text res)
            else (r1, log1))
      else if Kind res = KindFile then
        (let notes = S ''Telegram media ('' @ format_date (Date msg) @ S '')''
         in CreateBookmark remote log0 [] [] notes)
      else ((Bookmark0, 0, None), log0))"

text \<open>A remote service that rejects every record without a URL, and a note with two URLs.\<close>

definition needs_url :: remote where
  "needs_url log c =
     (if fst c = [] then (Bookmark0, 400, Some (S ''url required''))
      else (Bookmark0\<lparr>bm_ID := S ''b1''\<rparr>, 201, None))"

definition ex_note_two_urls :: Result where
  "ex_note_two_urls = Result0\<lparr>Kind := KindNote, res_Text := S ''x'', URLs := [S ''a.io'', S ''b.io'']\<rparr>"

definition ex_note_no_url :: Result where
  "ex_note_no_url = Result0\<lparr>Kind := KindNote, res_Text := S ''x''\<rparr>"

definition ex_bookmark :: Result where
  "ex_bookmark = Result0\<lparr>Kind := KindBookmark, URL := [], Notes := S ''n''\<rparr>"

definition ex_file :: Result where
  "ex_file = Result0\<lparr>Kind := KindFile, HasMedia := True\<rparr>"

section \<open>User-facing error messages (internal/app/app.go)\<close>

text \<open>
  The message literals of \<open>userFacingKarakeepError\<close>, which are Russian text, as code
  points.
\<close>






text \<open>The UTF-8 encoding of a rune and of a string: the bytes that Go indexes and slices.\<close>

definition utf8_rune :: "rune \<Rightarrow> nat list" where
  "utf8_rune r =
     (if r < 0x80 then [r]
      else if r < 0x800 then [0xC0 + r div 64, 0x80 + r mod 64]
      else if r < 0x10000 then [0xE0 + r div 4096, 0x80 + (r div 64) mod 64, 0x80 + r mod 64]
      else [0xF0 + r div 262144, 0x80 + (r div 4096) mod 64, 0x80 + (r div 64) mod 64,
            0x80 + r mod 64])"

definition utf8 :: "gostring \<Rightarrow> nat list" where
  "utf8 s = concat (map utf8_rune s)"




section \<open>Facts about strings\<close>

lemma S_simps: "S [] = []" "S (c # cs) = of_char c # S cs"
  by (simp_all add: S_def)

lemmas string_eval = TrimSpace_def isSpace_def stripTrailingPunct_def trailingPunct_def S_simps






lemma TrimSpace_Nil [simp]: "TrimSpace [] = []"
  by (simp add: TrimSpace_def)

lemma TrimSpace_no_space: "\<forall>r \<in> set s. \<not> isSpace r \<Longrightarrow> TrimSpace s = s"
proof -
  assume a: "\<forall>r \<in> set s. \<not> isSpace r"
  then have "dropWhile isSpace s = s" by (cases s) auto
  moreover have "dropWhile isSpace (rev s) = rev s" using a by (cases "rev s") auto
  ultimately show ?thesis by (simp add: TrimSpace_def)
qed

section \<open>Facts about first-occurrence deduplication\<close>

lemma keep_first_by_filter:
  assumes "\<And>x y. key x = key y \<Longrightarrow> P x = P y"
  shows "keep_first_by key (filter P xs) = filter P (keep_first_by key xs)"
  using assms
proof (induction key xs rule: keep_first_by.induct)
  case (1 key)
  show ?case by simp
next
  case (2 key x xs)
  have IH: "keep_first_by key (filter P (filter (\<lambda>y. key y \<noteq> key x) xs)) =
            filter P (keep_first_by key (filter (\<lambda>y. key y \<noteq> key x) xs))"
    using "2.IH" "2.prems" by blast
  have comm: "filter (\<lambda>y. key y \<noteq> key x) (filter P xs) = filter P (filter (\<lambda>y. key y \<noteq> key x) xs)"
    by (simp add: conj_commute)
  show ?case
  proof (cases "P x")
    case True
    have "keep_first_by key (filter P (x # xs)) =
          x # keep_first_by key (filter (\<lambda>y. key y \<noteq> key x) (filter P xs))"
      using True by simp
    also have "\<dots> = x # keep_first_by key (filter P (filter (\<lambda>y. key y \<noteq> key x) xs))"
      by (simp only: comm)
    also have "\<dots> = x # filter P (keep_first_by key (filter (\<lambda>y. key y \<noteq> key x) xs))"
      by (simp only: IH)
    finally show ?thesis using True by simp
  next
    case False
    have "\<And>y. P y \<Longrightarrow> key y \<noteq> key x"
      using False "2.prems" by blast
    then have "filter P (filter (\<lambda>y. key y \<noteq> key x) xs) = filter P xs"
      by (auto intro: filter_cong)
    then have "filter P (keep_first_by key (filter (\<lambda>y. key y \<noteq> key x) xs)) =
               keep_first_by key (filter P xs)"
      using IH by simp
    then show ?thesis using False by simp
  qed
qed


lemma keys_keep_first_by: "key ` set (keep_first_by key xs) = key ` set xs"
proof (induction key xs rule: keep_first_by.induct)
  case (1 key)
  show ?case by simp
next
  case (2 key x xs)
  have "key ` set (x # xs) = insert (key x) (key ` set (filter (\<lambda>y. key y \<noteq> key x) xs))"
    by auto
  then show ?case using "2.IH" by simp
qed

lemma distinct_keys_keep_first_by: "distinct (map key (keep_first_by key xs))"
proof (induction key xs rule: keep_first_by.induct)
  case (1 key)
  show ?case by simp
next
  case (2 key x xs)
  have "key ` set (keep_first_by key (filter (\<lambda>y. key y \<noteq> key x) xs)) =
        key ` set (filter (\<lambda>y. key y \<noteq> key x) xs)"
    by (rule keys_keep_first_by)
  then have "key x \<notin> key ` set (keep_first_by key (filter (\<lambda>y. key y \<noteq> key x) xs))"
    by auto
  then show ?case using "2.IH" by simp
qed

section \<open>The offset resolver on concrete inputs\<close>

lemma wrap64_id: "- 9223372036854775808 \<le> i \<Longrightarrow> i < 9223372036854775808 \<Longrightarrow> wrap64 i = i"
  by (simp add: wrap64_def)

lemma slice_loop_break:
  "endCU \<le> curCU \<Longrightarrow>
   slice_loop n startCU endCU ri (r # rs) curCU startRI endRI =
     (curCU, (if startCU \<le> curCU \<and> startRI = n then ri else startRI), ri)"
  by (simp add: Let_def)

lemma slice_loop_next:
  "curCU < endCU \<Longrightarrow>
   slice_loop n startCU endCU ri (r # rs) curCU startRI endRI =
     slice_loop n startCU endCU (Suc ri) rs (curCU + utf16_len r)
       (if startCU \<le> curCU \<and> startRI = n then ri else startRI) endRI"
  by (simp add: Let_def)

lemmas slice_loop_eval = slice_loop.simps(1) slice_loop_break slice_loop_next utf16_len_def

lemma SliceByUTF16_eval:
  assumes "0 \<le> off" and "0 \<le> len" and "off + len < 9223372036854775808"
    and "slice_loop (length s) off (off + len) 0 s 0 (length s) (length s) = (curCU, startRI1, endRI1)"
  shows "SliceByUTF16 s off len =
     (let n = length s;
          startRI2 = (if off \<ge> curCU then n else startRI1);
          endRI = (if off + len \<ge> curCU then n else endRI1);
          startRI = (if startRI2 > endRI then endRI else startRI2)
      in take (endRI - startRI) (drop startRI s))"
proof -
  have "wrap64 (off + len) = off + len"
    using assms(1-3) by (intro wrap64_id) auto
  then show ?thesis using assms by (simp add: SliceByUTF16_def Let_def)
qed



section \<open>The URL extractor refines deduplication of the cleaned candidates\<close>









text \<open>
  Claim C2, on the inputs of the repository's own test (\<^verbatim>\<open>utf16slice_test.go\<close>). The test
  expects the substrings \<open>a\<close>, U+1F60A and \<open>b\<close> for the pairs (0, 1), (1, 2) and (3, 1).
  The function returns the text from the addressed start up to the end of the whole text for
  the first two pairs: when the loop stops at the rune where the end offset is reached,
  \<open>curCU\<close> equals \<open>endCU\<close>, and the clamp after the loop (\<^verbatim>\<open>endCU >= curCU\<close>) then moves the
  end index to the number of runes.
\<close>

theorem SliceByUTF16_on_test_text:
  "SliceByUTF16 test_text 0 1 = [0x61, 0x1F60A, 0x62]
   \<and> SliceByUTF16 test_text 1 2 = [0x1F60A, 0x62]
   \<and> SliceByUTF16 test_text 3 1 = [0x62]"
proof -
  have len: "length test_text = 3" by (simp add: test_text_def)
  have l1: "slice_loop (length test_text) 0 (0 + 1) 0 test_text 0 (length test_text) (length test_text)
              = (1, 0, 1)"
    unfolding len by (simp add: test_text_def slice_loop_eval del: slice_loop.simps(2))
  have l2: "slice_loop (length test_text) 1 (1 + 2) 0 test_text 0 (length test_text) (length test_text)
              = (3, 1, 2)"
    unfolding len by (simp add: test_text_def slice_loop_eval del: slice_loop.simps(2))
  have l3: "slice_loop (length test_text) 3 (3 + 1) 0 test_text 0 (length test_text) (length test_text)
              = (4, 2, 3)"
    unfolding len by (simp add: test_text_def slice_loop_eval del: slice_loop.simps(2))
  have r1: "SliceByUTF16 test_text 0 1 = [0x61, 0x1F60A, 0x62]"
    using SliceByUTF16_eval[OF _ _ _ l1] by (simp add: test_text_def)
  have r2: "SliceByUTF16 test_text 1 2 = [0x1F60A, 0x62]"
    using SliceByUTF16_eval[OF _ _ _ l2] by (simp add: test_text_def)
  have r3: "SliceByUTF16 test_text 3 1 = [0x62]"
    using SliceByUTF16_eval[OF _ _ _ l3] by (simp add: test_text_def)
  from r1 r2 r3 show ?thesis by blast
qed



section \<open>The classifier\<close>



text \<open>
  Claim C10. \<open>ClassifyMessage\<close> is defined on every input, the \<^verbatim>\<open>nil\<close> message included:
  for \<^verbatim>\<open>nil\<close> it returns the kind note with every other field at its zero value, and the
  kind it returns is always one of the three constants, which are pairwise different.
\<close>

theorem ClassifyMessage_total:
  "ClassifyMessage None =
     \<lparr>Kind = KindNote, URL = [], Notes = [], res_Text = [], URLs = [], HasMedia = False\<rparr>
   \<and> (Kind (ClassifyMessage msg) = KindBookmark \<or> Kind (ClassifyMessage msg) = KindNote \<or>
        Kind (ClassifyMessage msg) = KindFile)
   \<and> KindBookmark \<noteq> KindNote \<and> KindBookmark \<noteq> KindFile \<and> KindNote \<noteq> KindFile"
proof -
  have nil: "ClassifyMessage None =
     \<lparr>Kind = KindNote, URL = [], Notes = [], res_Text = [], URLs = [], HasMedia = False\<rparr>"
    by (simp add: ClassifyMessage_def Result0_def)
  have kinds: "Kind (ClassifyMessage msg) = KindBookmark \<or> Kind (ClassifyMessage msg) = KindNote \<or>
        Kind (ClassifyMessage msg) = KindFile"
    by (simp add: ClassifyMessage_def Result0_def Let_def split: option.splits list.splits)
  have "KindBookmark \<noteq> KindNote \<and> KindBookmark \<noteq> KindFile \<and> KindNote \<noteq> KindFile"
    by (simp add: KindBookmark_def KindNote_def KindFile_def S_def)
  with nil kinds show ?thesis by blast
qed

section \<open>The attachment extractor\<close>

lemma add_attachment_step:
  "add_attachment (out, FileID ` set out) a =
     (if TrimSpace (FileID a) = [] \<or> FileID a \<in> FileID ` set out then (out, FileID ` set out)
      else (out @ [default_filename a], FileID ` set (out @ [default_filename a])))"
  by (simp add: add_attachment_def default_filename_def)

lemma FileID_default_filename [simp]: "FileID (default_filename a) = FileID a"
  by (simp add: default_filename_def)

lemma foldl_add_attachment:
  "foldl add_attachment (out, FileID ` set out) cs =
     (out @ map default_filename
        (keep_first_by FileID (filter (\<lambda>a. FileID a \<notin> FileID ` set out)
           (filter (\<lambda>a. TrimSpace (FileID a) \<noteq> []) cs))),
      FileID ` set out \<union> FileID ` set (filter (\<lambda>a. TrimSpace (FileID a) \<noteq> []) cs))"
proof (induction cs arbitrary: out)
  case Nil
  show ?case by simp
next
  case (Cons c cs)
  let ?ok = "\<lambda>a. TrimSpace (FileID a) \<noteq> []"
  let ?cs = "filter ?ok cs"
  show ?case
  proof (cases "TrimSpace (FileID c) = [] \<or> FileID c \<in> FileID ` set out")
    case True
    then have st: "add_attachment (out, FileID ` set out) c = (out, FileID ` set out)"
      by (simp add: add_attachment_step)
    have f: "filter (\<lambda>a. FileID a \<notin> FileID ` set out) (filter ?ok (c # cs)) =
             filter (\<lambda>a. FileID a \<notin> FileID ` set out) ?cs"
      using True by auto
    have s: "FileID ` set out \<union> FileID ` set (filter ?ok (c # cs)) = FileID ` set out \<union> FileID ` set ?cs"
      using True by auto
    show ?thesis
      unfolding foldl_Cons st f s by (rule Cons.IH)
  next
    case False
    let ?d = "default_filename c"
    have st: "add_attachment (out, FileID ` set out) c = (out @ [?d], FileID ` set (out @ [?d]))"
      using False by (simp add: add_attachment_step)
    have f1: "filter (\<lambda>a. FileID a \<notin> FileID ` set out) (filter ?ok (c # cs)) =
              c # filter (\<lambda>a. FileID a \<notin> FileID ` set out) ?cs"
      using False by simp
    have f2: "filter (\<lambda>a. FileID a \<notin> FileID ` set (out @ [?d])) ?cs =
              filter (\<lambda>y. FileID y \<noteq> FileID c) (filter (\<lambda>a. FileID a \<notin> FileID ` set out) ?cs)"
      by (auto intro: filter_cong)
    have s: "FileID ` set out \<union> FileID ` set (filter ?ok (c # cs)) =
             FileID ` set (out @ [?d]) \<union> FileID ` set ?cs"
      using False by auto
    show ?thesis
      unfolding foldl_Cons st f1 s Cons.IH[of "out @ [?d]"] f2 by simp
  qed
qed

lemma photo_step:
  "(if length ps > 0 then let p = ps ! (length ps - 1) in add_attachment st (f p) else st) =
     foldl add_attachment st (if ps = [] then [] else [f (last ps)])"
  by (cases "ps = []") (simp_all add: last_conv_nth)

lemma option_step:
  "(case x of None \<Rightarrow> st | Some v \<Rightarrow> add_attachment st (f v)) =
     foldl add_attachment st (case x of None \<Rightarrow> [] | Some v \<Rightarrow> [f v])"
  by (cases x) simp_all

lemma extract_from_message_foldl:
  "extract_from_message st msg = foldl add_attachment st (message_attachments msg)"
  unfolding extract_from_message_def message_attachments_def Let_def foldl_append
  by (simp only: photo_step[where f = "\<lambda>p. \<lparr>FileID = photo_FileID p, Filename = S ''photo.jpg'',
          Mime = S ''image/jpeg'', SizeBytes = photo_FileSize p\<rparr>", unfolded Let_def] option_step)

lemma attachments_loop_foldl:
  "attachments_loop st msgs = foldl add_attachment st (attachment_candidates msgs)"
proof (induction st msgs rule: attachments_loop.induct)
  case (1 st)
  show ?case by (simp add: attachment_candidates_def)
next
  case (2 st msgs)
  then show ?case by (simp add: attachment_candidates_def)
next
  case (3 st msg msgs)
  then show ?case by (simp add: attachment_candidates_def extract_from_message_foldl)
qed

lemma ExtractAttachments_spec:
  "ExtractAttachments msgs =
     map default_filename
       (keep_first_by FileID (filter (\<lambda>a. TrimSpace (FileID a) \<noteq> []) (attachment_candidates msgs)))"
  using foldl_add_attachment[of "[]" "attachment_candidates msgs"]
  by (simp add: ExtractAttachments_def attachments_loop_foldl)

text \<open>
  Claim C7. \<open>ExtractAttachments\<close> returns the attachments that the messages of the batch
  offer, in batch order and kind order, without those whose file identifier is blank, each
  file identifier at its first occurrence only and with the default file name filled in;
  no file identifier occurs twice in the result.
\<close>

theorem ExtractAttachments_dedup:
  "ExtractAttachments msgs =
     map default_filename
       (keep_first_by FileID (filter (\<lambda>a. TrimSpace (FileID a) \<noteq> []) (attachment_candidates msgs)))
   \<and> distinct (map FileID (ExtractAttachments msgs))"
proof -
  have "map FileID (ExtractAttachments msgs) =
        map FileID (keep_first_by FileID
          (filter (\<lambda>a. TrimSpace (FileID a) \<noteq> []) (attachment_candidates msgs)))"
    by (simp add: ExtractAttachments_spec comp_def)
  then have "distinct (map FileID (ExtractAttachments msgs))"
    by (simp only: distinct_keys_keep_first_by)
  then show ?thesis using ExtractAttachments_spec by blast
qed

theorem ExtractAttachments_dedup_witness:
  "ExtractAttachments ex_sticker_twice =
     [\<lparr>FileID = S ''st1'', Filename = S ''sticker.webp'', Mime = [], SizeBytes = 7\<rparr>]"
proof -
  have c: "attachment_candidates ex_sticker_twice =
      [\<lparr>FileID = S ''st1'', Filename = S ''sticker.webp'', Mime = [], SizeBytes = 7\<rparr>,
       \<lparr>FileID = S ''st1'', Filename = S ''sticker.webp'', Mime = [], SizeBytes = 7\<rparr>]"
    by (simp add: ex_sticker_twice_def attachment_candidates_def message_attachments_def msg0_def
          sticker1_def S_simps)
  show ?thesis
    using ExtractAttachments_dedup[of ex_sticker_twice] unfolding c
    by (simp add: default_filename_def string_eval)
qed

section \<open>Extraction readiness\<close>

lemma go_len_eq_0 [simp]: "go_len s = 0 \<longleftrightarrow> s = []"
  by (cases s) (simp_all add: go_len_def utf8_len_def)

lemma go_len_replicate_ascii: "r < 0x80 \<Longrightarrow> go_len (replicate n r) = n"
  by (induction n) (simp_all add: go_len_def utf8_len_def)

lemma content_not_excluded: "content_key kl \<Longrightarrow> \<not> excluded_key kl"
  by (auto simp: content_key_def excluded_key_def S_simps)

lemma scanned_depth: "scanned v d w e \<Longrightarrow> d \<le> e"
  by (induction rule: scanned.induct) auto

lemma scanned_JObject:
  "scanned (JObject kvs) d w e \<longleftrightarrow>
     (w = JObject kvs \<and> e = d) \<or>
     (\<exists>k vv. (k, vv) \<in> set kvs \<and> \<not> excluded_key (ToLower k) \<and> scanned vv (Suc d) w e)"
  by (subst scanned.simps) auto

lemma scanned_JArray:
  "scanned (JArray xs) d w e \<longleftrightarrow>
     (w = JArray xs \<and> e = d) \<or> (\<exists>vv. vv \<in> set xs \<and> scanned vv (Suc d) w e)"
  by (subst scanned.simps) auto

lemma scanned_leaf:
  "v = JNull \<or> v = JBool b \<or> v = JNumber \<or> v = JString s \<Longrightarrow>
   scanned v d w e \<longleftrightarrow> w = v \<and> e = d"
  by (subst scanned.simps) auto

lemma string_at_least_iff:
  "string_at_least n vv \<longleftrightarrow> (\<exists>s. vv = JString s \<and> go_len (TrimSpace s) \<ge> n)"
  by (cases vv) simp_all

lemma scan_finds_too_deep: "d > 6 \<Longrightarrow> \<not> scan_finds ck v d"
  using scanned_depth by (fastforce simp: scan_finds_def)

lemma content_hit_JObject:
  "content_hit ck (JObject kvs) \<longleftrightarrow>
     (\<exists>k vv. (k, vv) \<in> set kvs \<and> ck (ToLower k) \<and> string_at_least 200 vv)"
  by (auto simp: content_hit_def string_at_least_iff)

lemma scan_finds_JObject:
  "scan_finds ck (JObject kvs) d \<longleftrightarrow>
     (d \<le> 6 \<and> content_hit ck (JObject kvs)) \<or>
     (\<exists>k vv. (k, vv) \<in> set kvs \<and> \<not> excluded_key (ToLower k) \<and> scan_finds ck vv (Suc d))"
proof -
  have nb: "\<not> big_string (JObject kvs)" by (simp add: big_string_def)
  show ?thesis
    unfolding scan_finds_def scanned_JObject using nb by blast
qed

lemma scan_finds_JArray:
  "scan_finds ck (JArray xs) d \<longleftrightarrow> (\<exists>vv. vv \<in> set xs \<and> scan_finds ck vv (Suc d))"
proof -
  have nb: "\<not> big_string (JArray xs)" "\<not> content_hit ck (JArray xs)"
    by (simp_all add: big_string_def content_hit_def)
  show ?thesis
    unfolding scan_finds_def scanned_JArray using nb by blast
qed

lemma scan_finds_JString:
  "scan_finds ck (JString s) d \<longleftrightarrow> d \<le> 6 \<and> go_len (TrimSpace s) \<ge> 400"
  by (auto simp: scan_finds_def scanned_leaf[where s = s] big_string_def content_hit_def)

lemma scan_finds_atom:
  "\<not> scan_finds ck JNull d" "\<not> scan_finds ck (JBool b) d" "\<not> scan_finds ck JNumber d"
  by (auto simp: scan_finds_def scanned_leaf[where b = b] big_string_def content_hit_def)

lemma findNonTrivialContent_iff:
  "findNonTrivialContent v depth \<longleftrightarrow> scan_finds content_key v depth"
  "scan_fields kvs depth \<longleftrightarrow>
     (\<exists>k vv. (k, vv) \<in> set kvs \<and> \<not> excluded_key (ToLower k) \<and>
        ((content_key (ToLower k) \<and> string_at_least 200 vv) \<or>
         scan_finds content_key vv (Suc depth)))"
  "scan_items xs depth \<longleftrightarrow> (\<exists>vv. vv \<in> set xs \<and> scan_finds content_key vv (Suc depth))"
proof (induction v depth and kvs depth and xs depth
       rule: findNonTrivialContent_scan_fields_scan_items.induct)
  case (1 v depth)
  show ?case
  proof (cases "depth > 6")
    case True
    then show ?thesis using scan_finds_too_deep[of depth] by simp
  next
    case False
    then have d: "depth \<le> 6" by simp
    show ?thesis
    proof (cases v)
      case (JObject x)
      have pre: "\<not> (6 < depth \<or> v = JNull)" using False JObject by simp
      have "scan_fields x depth \<longleftrightarrow> scan_finds content_key (JObject x) depth"
        unfolding "1.IH"(2)[OF pre JObject] scan_finds_JObject content_hit_JObject
        using d content_not_excluded by blast
      then show ?thesis using JObject False by simp
    next
      case (JArray x)
      have pre: "\<not> (6 < depth \<or> v = JNull)" using False JArray by simp
      have "scan_items x depth \<longleftrightarrow> scan_finds content_key (JArray x) depth"
        unfolding "1.IH"(1)[OF pre JArray] scan_finds_JArray
        by blast
      then show ?thesis using JArray False by simp
    next
      case (JString x)
      then show ?thesis using d by (simp add: scan_finds_JString)
    qed (simp_all add: scan_finds_atom)
  qed
next
  case (2 depth)
  show ?case by simp
next
  case (3 k vv rest depth)
  show ?case
  proof (cases "excluded_key (ToLower k)")
    case True
    then show ?thesis using "3.IH"(1) by auto
  next
    case ne: False
    show ?thesis
    proof (cases "content_key (ToLower k) \<and> string_at_least 200 vv")
      case True
      then show ?thesis using ne by auto
    next
      case False
      have f: "findNonTrivialContent vv (depth + 1) \<longleftrightarrow> scan_finds content_key vv (Suc depth)"
        using "3.IH"(2)[OF refl ne False] by simp
      show ?thesis
      proof (cases "findNonTrivialContent vv (depth + 1)")
        case True
        then show ?thesis using ne False f by auto
      next
        case nf: False
        have "scan_fields rest depth \<longleftrightarrow>
          (\<exists>k vv. (k, vv) \<in> set rest \<and> \<not> excluded_key (ToLower k) \<and>
             ((content_key (ToLower k) \<and> string_at_least 200 vv) \<or>
              scan_finds content_key vv (Suc depth)))"
          using "3.IH"(3)[OF refl ne False nf] .
        then show ?thesis using ne False nf f by auto
      qed
    qed
  qed
next
  case (4 depth)
  show ?case by simp
next
  case (5 vv rest depth)
  have f: "findNonTrivialContent vv (depth + 1) \<longleftrightarrow> scan_finds content_key vv (Suc depth)"
    using "5.IH"(1) by simp
  show ?case
  proof (cases "findNonTrivialContent vv (depth + 1)")
    case True
    then show ?thesis using f by auto
  next
    case False
    then show ?thesis using f "5.IH"(2)[OF False] by auto
  qed
qed

lemma Contains_set: "Contains s sub \<Longrightarrow> set sub \<subseteq> set s"
proof (induction s)
  case Nil
  then show ?case by simp
next
  case (Cons c cs)
  from Cons.prems have "take (length sub) (c # cs) = sub \<or> Contains cs sub" by simp
  then show ?case
  proof
    assume "take (length sub) (c # cs) = sub"
    then have "set sub = set (take (length sub) (c # cs))" by simp
    then show ?thesis using set_take_subset[of "length sub" "c # cs"] by blast
  next
    assume "Contains cs sub"
    then show ?thesis using Cons.IH by auto
  qed
qed

lemma no_marker_without_letters:
  assumes "0x77 \<notin> set raw" and "0x67 \<notin> set raw"
  shows "\<not> has_marker raw"
proof -
  have "0x77 \<in> set crawl_marker" "0x67 \<in> set tagging_marker"
    by (simp_all add: crawl_marker_def tagging_marker_def S_simps)
  then show ?thesis using assms Contains_set unfolding has_marker_def by blast
qed

lemma letters_trimmed: "TrimSpace (replicate n 0x61) = replicate n 0x61"
  by (rule TrimSpace_no_space) (simp add: isSpace_def)

lemma go_len_letters: "go_len (TrimSpace (replicate n 0x61)) = n"
  by (simp add: letters_trimmed go_len_replicate_ascii)

lemma hasExtractedContent_scan:
  "hasExtractedContent unmarshal raw \<longleftrightarrow>
     raw \<noteq> [] \<and>
     (has_marker raw \<or> (\<exists>m. unmarshal raw = Some m \<and> scan_finds content_key (JObject m) 0))"
  by (auto simp: hasExtractedContent_def has_marker_def findNonTrivialContent_iff(1)
           simp del: findNonTrivialContent.simps split: option.splits)

text \<open>
  Claim C5 as stated fails on a record whose page content sits under the key
  \<open>textContent\<close>: with 200 letters there, the source reports readiness, while none of the
  listed keys matches and no string reaches 400.
\<close>

theorem readiness_key_list_counterexample:
  "hasExtractedContent ex_unmarshal ex_raw \<and> \<not> ready_as_specified ex_unmarshal ex_raw"
proof -
  have ne: "ex_raw \<noteq> []" by (simp add: ex_raw_def S_simps)
  have nm: "\<not> has_marker ex_raw"
    by (rule no_marker_without_letters) (simp_all add: ex_raw_def S_simps)
  have u: "ex_unmarshal ex_raw = Some ex_fields" by (simp add: ex_unmarshal_def)
  have low: "ToLower (S ''textContent'') = S ''textcontent''"
    by (simp add: ToLower_def toLower_rune_def S_simps)
  have ck: "content_key (S ''textcontent'')" by (simp add: content_key_def)
  have nl: "\<not> listed_content_key (S ''textcontent'')"
    by (simp add: listed_content_key_def S_simps)
  have hit: "content_hit content_key (JObject ex_fields)"
    unfolding content_hit_JObject ex_fields_def
    by (simp add: low ck go_len_letters)
  have nohit: "\<not> content_hit listed_content_key (JObject ex_fields)"
    unfolding content_hit_JObject ex_fields_def
    by (simp add: low nl)
  have deeper: "\<not> scan_finds listed_content_key (JString (replicate 200 0x61)) (Suc 0)"
    by (simp add: scan_finds_JString go_len_letters)
  have yes: "scan_finds content_key (JObject ex_fields) 0"
    unfolding scan_finds_JObject using hit by simp
  have no: "\<not> scan_finds listed_content_key (JObject ex_fields) 0"
    unfolding scan_finds_JObject using nohit deeper by (simp add: ex_fields_def)
  have 1: "hasExtractedContent ex_unmarshal ex_raw"
    unfolding hasExtractedContent_scan using ne u yes by simp
  have 2: "\<not> ready_as_specified ex_unmarshal ex_raw"
    unfolding ready_as_specified_def using nm u no by simp
  from 1 2 show ?thesis by blast
qed

text \<open>
  Claim C5, amended. \<open>hasExtractedContent\<close> holds exactly when the raw record is not empty
  and either its text contains one of the two success markers, or it decodes to an object
  in which the scan, which does not enter fields keyed notes, note or summary (keys
  compared in lower case), finds at nesting depth at most 6 an object with a string field
  of trimmed length at least 200 bytes under one of the keys content, html, text,
  textcontent, readablecontent, excerpt, description, markdown, article, or a string of
  trimmed length at least 400 bytes.
\<close>

theorem hasExtractedContent_iff:
  "hasExtractedContent unmarshal raw \<longleftrightarrow>
     raw \<noteq> [] \<and>
     (has_marker raw \<or>
      (\<exists>m w e. unmarshal raw = Some m \<and> scanned (JObject m) 0 w e \<and> e \<le> 6 \<and>
         (content_hit content_key w \<or> big_string w)))"
  unfolding hasExtractedContent_scan scan_finds_def by blast

theorem hasExtractedContent_iff_witness:
  "hasExtractedContent (\<lambda>raw. None) ex_marker_raw
   \<and> \<not> hasExtractedContent ex_notes_unmarshal ex_notes_raw"
proof -
  have m: "has_marker ex_marker_raw"
    by (simp add: has_marker_def ex_marker_raw_def crawl_marker_def S_simps)
  have ne: "ex_marker_raw \<noteq> []" by (simp add: ex_marker_raw_def S_simps)
  have 1: "hasExtractedContent (\<lambda>raw. None) ex_marker_raw"
    using hasExtractedContent_iff[of "\<lambda>raw. None" ex_marker_raw] m ne by simp
  have nm: "\<not> has_marker ex_notes_raw"
    by (rule no_marker_without_letters) (simp_all add: ex_notes_raw_def S_simps)
  have low: "ToLower (S ''Notes'') = S ''notes''"
    by (simp add: ToLower_def toLower_rune_def S_simps)
  have ex: "excluded_key (S ''notes'')" by (simp add: excluded_key_def)
  have nck: "\<not> content_key (S ''notes'')" using ex content_not_excluded by blast
  have sc: "scanned (JObject [(S ''Notes'', JString (replicate 400 0x61))]) 0 w e \<longleftrightarrow>
      w = JObject [(S ''Notes'', JString (replicate 400 0x61))] \<and> e = 0" for w e
    unfolding scanned_JObject by (auto simp: low ex)
  have nh: "\<not> content_hit content_key (JObject [(S ''Notes'', JString (replicate 400 0x61))])"
    unfolding content_hit_JObject by (simp add: low nck)
  have nb: "\<not> big_string (JObject [(S ''Notes'', JString (replicate 400 0x61))])"
    by (simp add: big_string_def)
  have 2: "\<not> hasExtractedContent ex_notes_unmarshal ex_notes_raw"
    using hasExtractedContent_iff[of ex_notes_unmarshal ex_notes_raw] nm nh nb
    by (auto simp: ex_notes_unmarshal_def sc)
  from 1 2 show ?thesis by blast
qed

section \<open>The create step and its single fallback\<close>

lemma Kinds_distinct:
  "KindBookmark \<noteq> KindNote" "KindBookmark \<noteq> KindFile" "KindNote \<noteq> KindFile"
  "KindNote \<noteq> KindBookmark" "KindFile \<noteq> KindBookmark" "KindFile \<noteq> KindNote"
  by (simp_all add: KindBookmark_def KindNote_def KindFile_def S_def)

text \<open>
  Claim C8. Started with an empty log, the create step makes these calls and no others.
  For a note: the text-only call, followed, exactly when that call returned an error and
  the classification carries at least one URL, by one call with the first URL and the same
  text. For a bookmark: the one call with its URL and notes. For a file: the one call
  with the media label. The response handed on is that of the last call.
\<close>

theorem create_for_kind_calls:
  fixes remote :: remote and format_date :: "int \<Rightarrow> gostring" and res :: Result and msg :: Message
  defines "run \<equiv> create_for_kind remote format_date res msg []"
    and "first \<equiv> ([], [], res_Text res)"
  shows "(Kind res = KindNote \<and> snd (snd (remote [] first)) \<noteq> None \<and> URLs res \<noteq> [] \<longrightarrow>
            snd run = [first, (hd (URLs res), [], res_Text res)] \<and>
            fst run = remote [first] (hd (URLs res), [], res_Text res))
       \<and> (Kind res = KindNote \<and> (snd (snd (remote [] first)) = None \<or> URLs res = []) \<longrightarrow>
            snd run = [first] \<and> fst run = remote [] first)
       \<and> (Kind res = KindBookmark \<longrightarrow>
            snd run = [(URL res, [], Notes res)] \<and> fst run = remote [] (URL res, [], Notes res))
       \<and> (Kind res = KindFile \<longrightarrow>
            snd run = [([], [], S ''Telegram media ('' @ format_date (Date msg) @ S '')'')] \<and>
            fst run = remote [] ([], [], S ''Telegram media ('' @ format_date (Date msg) @ S '')''))"
proof -
  have note2: "Kind res = KindNote \<and> snd (snd (remote [] first)) \<noteq> None \<and> URLs res \<noteq> [] \<longrightarrow>
            snd run = [first, (hd (URLs res), [], res_Text res)] \<and>
            fst run = remote [first] (hd (URLs res), [], res_Text res)"
    by (auto simp: run_def first_def create_for_kind_def CreateBookmark_def Kinds_distinct hd_conv_nth)
  have note1: "Kind res = KindNote \<and> (snd (snd (remote [] first)) = None \<or> URLs res = []) \<longrightarrow>
            snd run = [first] \<and> fst run = remote [] first"
    by (auto simp: run_def first_def create_for_kind_def CreateBookmark_def Kinds_distinct)
  have bm: "Kind res = KindBookmark \<longrightarrow>
            snd run = [(URL res, [], Notes res)] \<and> fst run = remote [] (URL res, [], Notes res)"
    by (simp add: run_def create_for_kind_def CreateBookmark_def)
  have fl: "Kind res = KindFile \<longrightarrow>
            snd run = [([], [], S ''Telegram media ('' @ format_date (Date msg) @ S '')'')] \<and>
            fst run = remote [] ([], [], S ''Telegram media ('' @ format_date (Date msg) @ S '')'')"
    by (simp add: run_def create_for_kind_def CreateBookmark_def Kinds_distinct Let_def)
  from note2 note1 bm fl show ?thesis by blast
qed

theorem create_for_kind_calls_witness:
  "snd (create_for_kind needs_url (\<lambda>d. S ''t'') ex_note_two_urls msg0 []) =
     [([], [], S ''x''), (S ''a.io'', [], S ''x'')]
   \<and> snd (create_for_kind needs_url (\<lambda>d. S ''t'') ex_note_no_url msg0 []) = [([], [], S ''x'')]
   \<and> snd (create_for_kind needs_url (\<lambda>d. S ''t'') ex_bookmark msg0 []) = [([], [], S ''n'')]
   \<and> snd (create_for_kind needs_url (\<lambda>d. S ''t'') ex_file msg0 []) =
       [([], [], S ''Telegram media ('' @ S ''t'' @ S '')'')]"
proof -
  have 1: "snd (create_for_kind needs_url (\<lambda>d. S ''t'') ex_note_two_urls msg0 []) =
     [([], [], S ''x''), (S ''a.io'', [], S ''x'')]"
    using create_for_kind_calls[where remote = needs_url and format_date = "\<lambda>d. S ''t''" and res = ex_note_two_urls
        and msg = msg0]
    by (simp add: ex_note_two_urls_def Result0_def needs_url_def)
  have 2: "snd (create_for_kind needs_url (\<lambda>d. S ''t'') ex_note_no_url msg0 []) = [([], [], S ''x'')]"
    using create_for_kind_calls[where remote = needs_url and format_date = "\<lambda>d. S ''t''" and res = ex_note_no_url
        and msg = msg0]
    by (simp add: ex_note_no_url_def Result0_def needs_url_def)
  have 3: "snd (create_for_kind needs_url (\<lambda>d. S ''t'') ex_bookmark msg0 []) = [([], [], S ''n'')]"
    using create_for_kind_calls[where remote = needs_url and format_date = "\<lambda>d. S ''t''" and res = ex_bookmark
        and msg = msg0]
    by (simp add: ex_bookmark_def Result0_def needs_url_def)
  have 4: "snd (create_for_kind needs_url (\<lambda>d. S ''t'') ex_file msg0 []) =
       [([], [], S ''Telegram media ('' @ S ''t'' @ S '')'')]"
    using create_for_kind_calls[where remote = needs_url and format_date = "\<lambda>d. S ''t''" and res = ex_file
        and msg = msg0]
    by (simp add: ex_file_def Result0_def needs_url_def)
  from 1 2 3 4 show ?thesis by blast
qed

section \<open>The user-facing error message\<close>

lemma go_len_append [simp]: "go_len (a @ b) = go_len a + go_len b"
  by (simp add: go_len_def)

lemma go_len_Nil [simp]: "go_len [] = 0"
  by (simp add: go_len_def)


lemma length_utf8_rune: "length (utf8_rune r) = utf8_len r"
  by (simp add: utf8_rune_def utf8_len_def)

lemma length_utf8 [simp]: "length (utf8 s) = go_len s"
  by (induction s) (simp_all add: utf8_def go_len_def length_utf8_rune)








end
